theory Spec2Isabelle
  imports Complex_Main
begin

section \<open>Python values and pandas tables\<close>

text \<open>
  A Python \<^verbatim>\<open>str\<close> is a sequence of Unicode code points; it is modelled as a list of
  natural numbers, so that the length, the whitespace test and the currency symbols
  (the euro sign is U+20AC) are what Python sees. \<open>py\<close> turns an ASCII literal into
  such a sequence.
\<close>

type_synonym pystr = "nat list"

definition py :: "string \<Rightarrow> pystr" where
  "py s = map of_char s"

text \<open>The code points for which \<^verbatim>\<open>str.isspace\<close> holds; \<^verbatim>\<open>str.strip()\<close> removes them.\<close>

definition is_space :: "nat \<Rightarrow> bool" where
  "is_space c \<longleftrightarrow>
     (9 \<le> c \<and> c \<le> 13) \<or> (28 \<le> c \<and> c \<le> 32) \<or> c = 133 \<or> c = 160 \<or> c = 5760 \<or>
     (8192 \<le> c \<and> c \<le> 8202) \<or> c = 8232 \<or> c = 8233 \<or> c = 8239 \<or> c = 8287 \<or> c = 12288"

definition strip :: "pystr \<Rightarrow> pystr" where
  "strip s = rev (dropWhile is_space (rev (dropWhile is_space s)))"

text \<open>
  A cell of a table. \<open>NA\<close> stands for every null marker of pandas (\<^verbatim>\<open>None\<close>,
  \<^verbatim>\<open>NaN\<close>, \<^verbatim>\<open>pd.NA\<close>, \<^verbatim>\<open>NaT\<close>). Floats are idealised as rationals.
\<close>

datatype cell = NA | VStr pystr | VInt int | VFloat rat | VBool bool | VStamp int

datatype dtype = DObject | DString | DInt | DFloat | DBool | DDatetime

record column =
  label :: pystr
  dtype :: dtype
  cells :: "cell list"

text \<open>
  A \<^verbatim>\<open>DataFrame\<close> is the ordered sequence of its columns. Every column of a frame
  has the length of the index (\<open>wf_table\<close>).
\<close>

type_synonym dataframe = "column list"

definition nrows :: "dataframe \<Rightarrow> nat" where
  "nrows df = (case df of [] \<Rightarrow> 0 | c # _ \<Rightarrow> length (cells c))"

definition wf_table :: "dataframe \<Rightarrow> bool" where
  "wf_table df = list_all (\<lambda>c. length (cells c) = nrows df) df"

datatype exn = TypeError | AttributeError

text \<open>
  \<^verbatim>\<open>df[col]\<close> is a \<^verbatim>\<open>Series\<close> when exactly one column carries the label and a
  \<^verbatim>\<open>DataFrame\<close> of the columns that carry it otherwise.
\<close>

datatype item = Series column | Frame "column list"

definition getitem :: "dataframe \<Rightarrow> pystr \<Rightarrow> item" where
  "getitem df name =
     (case filter (\<lambda>c. label c = name) df of [c] \<Rightarrow> Series c | cs \<Rightarrow> Frame cs)"

definition setitem :: "dataframe \<Rightarrow> pystr \<Rightarrow> column \<Rightarrow> dataframe" where
  "setitem df name c' = map (\<lambda>c. if label c = name then c' else c) df"

text \<open>
  What the program takes from Python, NumPy and pandas without defining it:
  \<^item> \<open>py_str\<close>: \<^verbatim>\<open>str(x)\<close> of a scalar that is not a string;
  \<^item> \<open>py_lower\<close>: \<^verbatim>\<open>str.lower\<close>;
  \<^item> \<open>seed_state\<close>: the generator state of \<^verbatim>\<open>RandomState(seed)\<close>;
  \<^item> \<open>permutation\<close>: \<^verbatim>\<open>RandomState.permutation(n)\<close> drawn from a generator state;
  \<^item> \<open>to_datetime\<close>: for every value of a series, whether
    \<^verbatim>\<open>pd.to_datetime(..., errors="coerce", dayfirst=True)\<close> parses it;
  \<^item> \<open>to_numeric\<close>: whether \<^verbatim>\<open>pd.to_numeric(..., errors="coerce")\<close> parses a string;
  \<^item> \<open>re_eu_thousands\<close>, \<open>re_decimal_comma\<close>: whether the regular expressions
    \<^verbatim>\<open>\d{1,3}(\.\d{3})+(,\d{1,2})?$\<close> and \<^verbatim>\<open>\d+,\d{1,2}$\<close> are found in a string.
\<close>

record lib =
  py_str :: "cell \<Rightarrow> pystr"
  py_lower :: "pystr \<Rightarrow> pystr"
  seed_state :: "nat \<Rightarrow> nat"
  permutation :: "nat \<Rightarrow> nat \<Rightarrow> nat list"
  to_datetime :: "pystr list \<Rightarrow> bool list"
  to_numeric :: "pystr \<Rightarrow> bool"
  re_eu_thousands :: "pystr \<Rightarrow> bool"
  re_decimal_comma :: "pystr \<Rightarrow> bool"

section \<open>Duplicate rows\<close>

text \<open>
  pandas compares the values of a row by hash and equality of the Python objects:
  \<^verbatim>\<open>1\<close>, \<^verbatim>\<open>1.0\<close> and \<^verbatim>\<open>True\<close> are one value, all null markers are one value.
\<close>

definition py_key :: "cell \<Rightarrow> cell" where
  "py_key x =
     (case x of
        VBool b \<Rightarrow> VInt (if b then 1 else 0)
      | VFloat r \<Rightarrow> (if of_int \<lfloor>r\<rfloor> = r then VInt \<lfloor>r\<rfloor> else VFloat r)
      | _ \<Rightarrow> x)"

definition row_keys :: "dataframe \<Rightarrow> cell list list" where
  "row_keys df = map (\<lambda>i. map (\<lambda>c. py_key (cells c ! i)) df) [0..<nrows df]"

text \<open>\<^verbatim>\<open>df.duplicated()\<close>: a row is marked when an earlier row has the same values.\<close>

definition duplicated_rows :: "'a list \<Rightarrow> bool list" where
  "duplicated_rows rs = map (\<lambda>i. rs ! i \<in> set (take i rs)) [0..<length rs]"

definition duplicated :: "dataframe \<Rightarrow> bool list" where
  "duplicated df = duplicated_rows (row_keys df)"

definition dup_count :: "dataframe \<Rightarrow> nat" where
  "dup_count df = length (filter id (duplicated df))"

definition take_rows :: "nat list \<Rightarrow> column \<Rightarrow> column" where
  "take_rows idx c = c\<lparr>cells := map (\<lambda>i. cells c ! i) idx\<rparr>"

text \<open>\<^verbatim>\<open>df[~df.duplicated()]\<close>: the positions that are not marked, in order.\<close>

definition kept_rows :: "dataframe \<Rightarrow> nat list" where
  "kept_rows df = (let m = duplicated df in filter (\<lambda>i. \<not> m ! i) [0..<length m])"

definition drop_duplicates :: "dataframe \<Rightarrow> dataframe" where
  "drop_duplicates df = map (take_rows (kept_rows df)) df"

section \<open>Cleaner (inspector/cleaning.py)\<close>

definition NA_STRINGS :: "pystr list" where
  "NA_STRINGS = [py '''', py ''na'', py ''n/a'', py ''null'', py ''none'']"

definition astype_string :: "lib \<Rightarrow> cell \<Rightarrow> cell" where
  "astype_string L x = (case x of NA \<Rightarrow> NA | VStr s \<Rightarrow> VStr s | _ \<Rightarrow> VStr (py_str L x))"

definition str_strip :: "cell \<Rightarrow> cell" where
  "str_strip x = (case x of VStr s \<Rightarrow> VStr (strip s) | _ \<Rightarrow> x)"

definition replace_na :: "cell \<Rightarrow> cell" where
  "replace_na x = (case x of VStr s \<Rightarrow> (if s \<in> set NA_STRINGS then NA else VStr s) | _ \<Rightarrow> x)"

text \<open>\<^verbatim>\<open>is_object_dtype(s) or is_string_dtype(s)\<close> on a series.\<close>

definition is_text_dtype :: "dtype \<Rightarrow> bool" where
  "is_text_dtype d \<longleftrightarrow> d = DObject \<or> d = DString"

definition clean_cell :: "lib \<Rightarrow> cell \<Rightarrow> cell" where
  "clean_cell L x = replace_na (str_strip (astype_string L x))"

definition clean_column :: "lib \<Rightarrow> column \<Rightarrow> column" where
  "clean_column L c = c\<lparr>dtype := DString, cells := map (clean_cell L) (cells c)\<rparr>"

text \<open>
  The loop over \<^verbatim>\<open>out.columns\<close>. Both dtype tests are false on a
  \<^verbatim>\<open>DataFrame\<close>, so a label that several columns carry is passed over.
\<close>

fun clean_loop :: "lib \<Rightarrow> pystr list \<Rightarrow> dataframe \<Rightarrow> dataframe" where
  "clean_loop L [] out = out"
| "clean_loop L (col # rest) out =
     clean_loop L rest
       (case getitem out col of
          Series c \<Rightarrow> (if is_text_dtype (dtype c) then setitem out col (clean_column L c) else out)
        | Frame _ \<Rightarrow> out)"

definition strip_names :: "dataframe \<Rightarrow> dataframe" where
  "strip_names df = map (\<lambda>c. c\<lparr>label := strip (label c)\<rparr>) df"

definition safe_clean_dataframe :: "lib \<Rightarrow> dataframe \<Rightarrow> bool \<Rightarrow> dataframe" where
  "safe_clean_dataframe L df drop_exact_duplicates =
     (let out = strip_names df;
          out = clean_loop L (map label out) out
      in if drop_exact_duplicates then drop_duplicates out else out)"

text \<open>The text of a non-null cell once the column is cast to the string dtype.\<close>

definition text_of :: "lib \<Rightarrow> cell \<Rightarrow> pystr" where
  "text_of L x = (case x of VStr s \<Rightarrow> s | _ \<Rightarrow> py_str L x)"

section \<open>Floats\<close>

text \<open>
  A Python float is \<open>NaN\<close> or a number. The numbers are idealised as exact rationals and
  \<^verbatim>\<open>round(x, n)\<close> as rounding to the nearest multiple of \<open>10\<^sup>-\<^sup>n\<close>, a tie going to the even
  multiple; binary rounding error is outside the model. Every comparison with \<open>NaN\<close>
  is false.
\<close>

datatype pyfloat = NaN | Fin rat

definition fle :: "pyfloat \<Rightarrow> pyfloat \<Rightarrow> bool" where
  "fle a b = (case (a, b) of (Fin x, Fin y) \<Rightarrow> x \<le> y | _ \<Rightarrow> False)"

definition fge :: "pyfloat \<Rightarrow> pyfloat \<Rightarrow> bool" where
  "fge a b = fle b a"

definition fgt :: "pyfloat \<Rightarrow> pyfloat \<Rightarrow> bool" where
  "fgt a b = (case (a, b) of (Fin x, Fin y) \<Rightarrow> y < x | _ \<Rightarrow> False)"

definition fmul :: "pyfloat \<Rightarrow> rat \<Rightarrow> pyfloat" where
  "fmul a k = (case a of NaN \<Rightarrow> NaN | Fin x \<Rightarrow> Fin (x * k))"

definition round_half_even :: "rat \<Rightarrow> int" where
  "round_half_even x =
     (let f = \<lfloor>x\<rfloor>; d = x - of_int f
      in if d < 1 / 2 then f else if 1 / 2 < d then f + 1 else if even f then f else f + 1)"

definition py_round :: "pyfloat \<Rightarrow> nat \<Rightarrow> pyfloat" where
  "py_round x ndigits =
     (case x of NaN \<Rightarrow> NaN
      | Fin q \<Rightarrow> Fin (of_int (round_half_even (q * 10 ^ ndigits)) / 10 ^ ndigits))"

text \<open>The mean of a boolean series with \<open>k\<close> true values among \<open>n\<close>; \<open>NaN\<close> when it is empty.\<close>

definition mean_of_count :: "nat \<Rightarrow> nat \<Rightarrow> pyfloat" where
  "mean_of_count k n = (if n = 0 then NaN else Fin (of_nat k / of_nat n))"

definition mean_bool :: "bool list \<Rightarrow> pyfloat" where
  "mean_bool bs = mean_of_count (length (filter id bs)) (length bs)"

section \<open>Profiler (inspector/profiling.py)\<close>

definition isna :: "cell \<Rightarrow> bool" where
  "isna x \<longleftrightarrow> x = NA"

definition dropna :: "cell list \<Rightarrow> cell list" where
  "dropna xs = filter (\<lambda>x. \<not> isna x) xs"

definition null_count :: "cell list \<Rightarrow> nat" where
  "null_count xs = length (filter id (map isna xs))"

text \<open>\<^verbatim>\<open>s.nunique(dropna=True)\<close>: the distinct values that are not null.\<close>

definition nunique :: "cell list \<Rightarrow> nat" where
  "nunique xs = length (remdups (map py_key (dropna xs)))"

definition is_numeric_dtype :: "dtype \<Rightarrow> bool" where
  "is_numeric_dtype d \<longleftrightarrow> d = DInt \<or> d = DFloat \<or> d = DBool"

definition is_datetime64_any_dtype :: "dtype \<Rightarrow> bool" where
  "is_datetime64_any_dtype d \<longleftrightarrow> d = DDatetime"

text \<open>
  The order \<^verbatim>\<open>min\<close> and \<^verbatim>\<open>max\<close> use on numbers and time stamps. A text among the
  values has no place in it: the reduction raises.
\<close>

definition num_of :: "cell \<Rightarrow> rat option" where
  "num_of x =
     (case x of
        VInt i \<Rightarrow> Some (of_int i)
      | VFloat r \<Rightarrow> Some r
      | VBool b \<Rightarrow> Some (if b then 1 else 0)
      | VStamp t \<Rightarrow> Some (of_int t)
      | _ \<Rightarrow> None)"

definition series_min :: "cell list \<Rightarrow> exn + cell" where
  "series_min xs =
     (let ys = dropna xs
      in if ys = [] then Inr NA
         else if list_all (\<lambda>y. num_of y \<noteq> None) ys
         then Inr (foldl (\<lambda>a y. if the (num_of y) < the (num_of a) then y else a) (hd ys) (tl ys))
         else Inl TypeError)"

definition series_max :: "cell list \<Rightarrow> exn + cell" where
  "series_max xs =
     (let ys = dropna xs
      in if ys = [] then Inr NA
         else if list_all (\<lambda>y. num_of y \<noteq> None) ys
         then Inr (foldl (\<lambda>a y. if the (num_of a) < the (num_of y) then y else a) (hd ys) (tl ys))
         else Inl TypeError)"

text \<open>
  One row of the profile. \<open>min_val\<close> and \<open>max_val\<close> are \<open>None\<close> where the program leaves
  the empty string.
\<close>

record profile_row =
  column_label :: pystr
  dtype_name :: dtype
  null_pct :: pyfloat
  unique_values :: nat
  cardinality :: pyfloat
  min_val :: "cell option"
  max_val :: "cell option"

text \<open>\<^verbatim>\<open>round(null_rate * 100, 2)\<close> with \<^verbatim>\<open>null_rate = float(s.isna().mean())\<close>.\<close>

definition null_pct_of :: "nat \<Rightarrow> nat \<Rightarrow> pyfloat" where
  "null_pct_of nulls len_s = py_round (fmul (mean_of_count nulls len_s) 100) 2"

text \<open>\<^verbatim>\<open>round(cardinality, 3)\<close> with \<^verbatim>\<open>cardinality = unique_count / len(df) if len(df) else 0.0\<close>.\<close>

definition cardinality_of :: "nat \<Rightarrow> nat \<Rightarrow> pyfloat" where
  "cardinality_of unique_count len_df =
     py_round (if len_df \<noteq> 0 then Fin (of_nat unique_count / of_nat len_df) else Fin 0) 3"

definition min_max :: "column \<Rightarrow> cell option \<times> cell option" where
  "min_max s =
     (if is_numeric_dtype (dtype s) \<or> is_datetime64_any_dtype (dtype s)
      then (case series_min (cells s) of
              Inl _ \<Rightarrow> (None, None)
            | Inr a \<Rightarrow> (case series_max (cells s) of
                         Inl _ \<Rightarrow> (Some a, None)
                       | Inr b \<Rightarrow> (Some a, Some b)))
      else (None, None))"

definition profile_column :: "nat \<Rightarrow> column \<Rightarrow> profile_row" where
  "profile_column len_df s =
     \<lparr> column_label = label s,
       dtype_name = dtype s,
       null_pct = null_pct_of (null_count (cells s)) (length (cells s)),
       unique_values = nunique (cells s),
       cardinality = cardinality_of (nunique (cells s)) len_df,
       min_val = fst (min_max s),
       max_val = snd (min_max s) \<rparr>"

text \<open>
  The loop over \<^verbatim>\<open>df.columns\<close>. Where \<^verbatim>\<open>df[col]\<close> is a \<^verbatim>\<open>DataFrame\<close>,
  \<^verbatim>\<open>s.isna().mean()\<close> is a series and \<^verbatim>\<open>float\<close> raises.
\<close>

fun profile_loop :: "dataframe \<Rightarrow> pystr list \<Rightarrow> exn + profile_row list" where
  "profile_loop df [] = Inr []"
| "profile_loop df (col # rest) =
     (case getitem df col of
        Frame _ \<Rightarrow> Inl TypeError
      | Series s \<Rightarrow>
          (case profile_loop df rest of
             Inl e \<Rightarrow> Inl e
           | Inr rows \<Rightarrow> Inr (profile_column (nrows df) s # rows)))"

definition build_column_profile :: "dataframe \<Rightarrow> exn + profile_row list" where
  "build_column_profile df = profile_loop df (map label df)"

section \<open>Rule engine (inspector/rules.py)\<close>

subsection \<open>String predicates\<close>

definition contains :: "pystr \<Rightarrow> pystr \<Rightarrow> bool" where
  "contains sub s = list_ex (\<lambda>i. take (length sub) (drop i s) = sub) [0..<Suc (length s)]"

definition endswith :: "pystr \<Rightarrow> pystr \<Rightarrow> bool" where
  "endswith s suffix \<longleftrightarrow>
     length suffix \<le> length s \<and> drop (length s - length suffix) s = suffix"

definition is_alnum :: "nat \<Rightarrow> bool" where
  "is_alnum c \<longleftrightarrow> (48 \<le> c \<and> c \<le> 57) \<or> (65 \<le> c \<and> c \<le> 90) \<or> (97 \<le> c \<and> c \<le> 122)"

definition is_alpha :: "nat \<Rightarrow> bool" where
  "is_alpha c \<longleftrightarrow> (65 \<le> c \<and> c \<le> 90) \<or> (97 \<le> c \<and> c \<le> 122)"

text \<open>The character classes \<^verbatim>\<open>[A-Za-z0-9._%+\-]\<close> and \<^verbatim>\<open>[A-Za-z0-9.\-]\<close>.\<close>

definition is_local_char :: "nat \<Rightarrow> bool" where
  "is_local_char c \<longleftrightarrow> is_alnum c \<or> c = 46 \<or> c = 95 \<or> c = 37 \<or> c = 43 \<or> c = 45"

definition is_domain_char :: "nat \<Rightarrow> bool" where
  "is_domain_char c \<longleftrightarrow> is_alnum c \<or> c = 46 \<or> c = 45"

text \<open>
  \<^verbatim>\<open>[A-Za-z0-9.\-]+\.[A-Za-z]{2,}\<close> up to the end: the letters after the last dot are
  the top-level domain, what stands before that dot is the rest of the domain.
\<close>

definition domain_ok :: "pystr \<Rightarrow> bool" where
  "domain_ok d =
     (let tld = rev (takeWhile (\<lambda>c. c \<noteq> 46) (rev d));
          r = dropWhile (\<lambda>c. c \<noteq> 46) (rev d)
      in r \<noteq> [] \<and> tl r \<noteq> [] \<and> list_all is_domain_char (tl r)
         \<and> list_all is_alpha tld \<and> 2 \<le> length tld)"

definition email_core :: "pystr \<Rightarrow> bool" where
  "email_core t =
     (let loc = takeWhile is_local_char t;
          r = dropWhile is_local_char t
      in loc \<noteq> [] \<and> r \<noteq> [] \<and> hd r = 64 \<and> domain_ok (tl r))"

text \<open>
  \<^verbatim>\<open>EMAIL_REGEX.match\<close>: the pattern is anchored at both ends, and \<^verbatim>\<open>$\<close> also matches
  before a line feed that ends the string.
\<close>

definition EMAIL_REGEX :: "pystr \<Rightarrow> bool" where
  "EMAIL_REGEX s \<longleftrightarrow> email_core s \<or> (s \<noteq> [] \<and> last s = 10 \<and> email_core (butlast s))"

definition looks_like_email_column :: "lib \<Rightarrow> pystr \<Rightarrow> bool" where
  "looks_like_email_column L col_name =
     (let name = py_lower L (strip col_name)
      in contains (py ''email'') name \<or> endswith name (py ''_mail'') \<or> endswith name (py ''mail''))"

definition looks_like_date_column :: "lib \<Rightarrow> pystr \<Rightarrow> bool" where
  "looks_like_date_column L col_name =
     (let name = py_lower L (strip col_name);
          keywords = [py ''date'', py ''fecha'', py ''datetime'', py ''timestamp'',
                      py ''created'', py ''updated'']
      in list_ex (\<lambda>k. contains k name) keywords)"

definition looks_like_numeric_column :: "lib \<Rightarrow> pystr \<Rightarrow> bool" where
  "looks_like_numeric_column L col_name =
     (let name = py_lower L (strip col_name);
          keywords = [py ''price'', py ''amount'', py ''importe'', py ''total'', py ''qty'',
                      py ''quantity'', py ''units'', py ''discount'', py ''pct'', py ''percent'',
                      py ''%'']
      in list_ex (\<lambda>k. contains k name) keywords)"

subsection \<open>Sampling\<close>

text \<open>
  \<^verbatim>\<open>Series.sample(n, random_state=...)\<close> takes the values at the first \<open>n\<close> positions
  of a permutation of the index. With \<^verbatim>\<open>random_state=None\<close> the permutation is drawn
  from the ambient generator of the process, with a seed from a fresh generator of that
  seed.
\<close>

definition pd_sample :: "lib \<Rightarrow> nat \<Rightarrow> nat option \<Rightarrow> nat \<Rightarrow> 'a list \<Rightarrow> 'a list" where
  "pd_sample L ambient random_state n xs =
     (let g = (case random_state of None \<Rightarrow> ambient | Some seed \<Rightarrow> seed_state L seed)
      in map (\<lambda>i. xs ! i) (take n (permutation L g (length xs))))"

text \<open>Every permutation the generator returns is one of the index.\<close>

definition lib_ok :: "lib \<Rightarrow> bool" where
  "lib_ok L \<longleftrightarrow> (\<forall>g n. length (permutation L g n) = n \<and> set (permutation L g n) = {0..<n})"

text \<open>
  The rows of a \<^verbatim>\<open>DataFrame\<close> that \<^verbatim>\<open>dropna()\<close> keeps: those without a null.
\<close>

definition frame_dropna :: "column list \<Rightarrow> nat list" where
  "frame_dropna cs = filter (\<lambda>i. list_all (\<lambda>c. \<not> isna (cells c ! i)) cs) [0..<nrows cs]"

definition type_name :: "cell \<Rightarrow> pystr" where
  "type_name x =
     (case x of
        NA \<Rightarrow> py ''NoneType''
      | VStr _ \<Rightarrow> py ''str''
      | VInt _ \<Rightarrow> py ''int''
      | VFloat _ \<Rightarrow> py ''float''
      | VBool _ \<Rightarrow> py ''bool''
      | VStamp _ \<Rightarrow> py ''Timestamp'')"

text \<open>
  \<^verbatim>\<open>infer_mixed_types(series, sample_size=200)\<close>. A \<^verbatim>\<open>DataFrame\<close> has no
  \<^verbatim>\<open>tolist\<close>: the call raises once the frame is not empty.
\<close>

definition infer_mixed_types :: "lib \<Rightarrow> nat \<Rightarrow> item \<Rightarrow> nat \<Rightarrow> exn + bool" where
  "infer_mixed_types L ambient series sample_size =
     (case series of
        Series c \<Rightarrow>
          (let s = dropna (cells c)
           in if s = [] then Inr False
              else let sample = pd_sample L ambient (Some 42) (min sample_size (length s)) s;
                       types = remdups (map type_name sample)
                   in Inr (1 < length types))
      | Frame cs \<Rightarrow> (if frame_dropna cs = [] then Inr False else Inl AttributeError))"

subsection \<open>Issues\<close>

text \<open>
  An issue is the dictionary \<open>{severity, title, details, suggestion}\<close>. The constructor
  stands for the title and the suggestion, which are fixed texts, and carries what the
  program formats into the title and the details.
\<close>

datatype hint = CurrencySymbols | PercentSigns | EUNumberFormatting

datatype issue =
    PrimaryKeyCandidates "pystr list"
  | DuplicateRows nat
  | HighMissing "(pystr \<times> pyfloat) list"
  | MixedTypes "pystr list"
  | InvalidEmails pystr pyfloat
  | DateParsing pystr pyfloat
  | NumericAsText pystr "hint list" pyfloat

datatype severity = Critical | Warning | Info

fun issue_severity :: "issue \<Rightarrow> severity" where
  "issue_severity (PrimaryKeyCandidates _) = Info"
| "issue_severity (DuplicateRows _) = Warning"
| "issue_severity (HighMissing _) = Warning"
| "issue_severity (MixedTypes _) = Critical"
| "issue_severity (InvalidEmails _ _) = Warning"
| "issue_severity (DateParsing _ _) = Warning"
| "issue_severity (NumericAsText _ _ _) = Warning"

subsection \<open>Detectors over one column\<close>

text \<open>\<^verbatim>\<open>s.astype("string").str.strip()\<close> on the values that are not null.\<close>

definition str_values :: "lib \<Rightarrow> cell list \<Rightarrow> pystr list" where
  "str_values L s = map (\<lambda>x. strip (text_of L x)) s"

text \<open>\<^verbatim>\<open>s_str.sample(min(2000, len(s_str)), random_state=42)\<close>.\<close>

definition detector_sample :: "lib \<Rightarrow> nat \<Rightarrow> 'a list \<Rightarrow> 'a list" where
  "detector_sample L ambient s_str = pd_sample L ambient (Some 42) (min 2000 (length s_str)) s_str"

definition email_column :: "lib \<Rightarrow> nat \<Rightarrow> dataframe \<Rightarrow> pystr \<Rightarrow> exn + issue list" where
  "email_column L ambient df col =
     (if \<not> looks_like_email_column L col then Inr []
      else case getitem df col of
        Series c \<Rightarrow>
          (let s = dropna (cells c)
           in if s = [] then Inr []
              else let s_str = str_values L s;
                       sample = detector_sample L ambient s_str;
                       invalid_rate = mean_bool (map (\<lambda>v. \<not> EMAIL_REGEX v) sample)
                   in if fge invalid_rate (Fin (5 / 100))
                      then Inr [InvalidEmails col (py_round (fmul invalid_rate 100) 2)]
                      else Inr [])
      | Frame cs \<Rightarrow> (if frame_dropna cs = [] then Inr [] else Inl AttributeError))"

definition date_column :: "lib \<Rightarrow> nat \<Rightarrow> dataframe \<Rightarrow> pystr \<Rightarrow> exn + issue list" where
  "date_column L ambient df col =
     (if \<not> looks_like_date_column L col then Inr []
      else case getitem df col of
        Series c \<Rightarrow>
          (let s = dropna (cells c)
           in if s = [] then Inr []
              else if is_datetime64_any_dtype (dtype c) then Inr []
              else let s_str = str_values L s;
                       sample = detector_sample L ambient s_str;
                       parsed = to_datetime L sample;
                       fail_rate = mean_bool (map (\<lambda>ok. \<not> ok) parsed);
                       date_like = mean_bool (map (\<lambda>v. list_ex (\<lambda>c. c = 45 \<or> c = 47 \<or> c = 58 \<or> c = 46) v) sample)
                   in if fge date_like (Fin (4 / 10)) \<and> fge fail_rate (Fin (2 / 10))
                      then Inr [DateParsing col (py_round (fmul fail_rate 100) 2)]
                      else Inr [])
      | Frame cs \<Rightarrow> (if frame_dropna cs = [] then Inr [] else Inl AttributeError))"

text \<open>The currency symbols: the euro sign, the dollar sign, the pound sign.\<close>

definition currency_symbols :: "nat list" where
  "currency_symbols = [8364, 36, 163]"

definition numeric_cleaned :: "pystr \<Rightarrow> pystr" where
  "numeric_cleaned v =
     (let cleaned = filter (\<lambda>c. c \<notin> set currency_symbols) v;
          cleaned = filter (\<lambda>c. c \<noteq> 37) cleaned;
          cleaned = filter (\<lambda>c. c \<noteq> 32) cleaned;
          cleaned = filter (\<lambda>c. c \<noteq> 46) cleaned
      in map (\<lambda>c. if c = 44 then 46 else c) cleaned)"

definition numeric_column :: "lib \<Rightarrow> nat \<Rightarrow> dataframe \<Rightarrow> pystr \<Rightarrow> exn + issue list" where
  "numeric_column L ambient df col =
     (if \<not> looks_like_numeric_column L col then Inr []
      else case getitem df col of
        Series c \<Rightarrow>
          (let s = dropna (cells c)
           in if s = [] then Inr []
              else if is_numeric_dtype (dtype c) then Inr []
              else let s_str = str_values L s;
                       sample = detector_sample L ambient s_str;
                       has_currency = list_ex (\<lambda>sym. fgt (mean_bool (map (\<lambda>v. sym \<in> set v) sample)) (Fin (5 / 100)))
                                        currency_symbols;
                       has_percent = fgt (mean_bool (map (\<lambda>v. 37 \<in> set v) sample)) (Fin (5 / 100));
                       has_eu_number = (fgt (mean_bool (map (re_eu_thousands L) sample)) (Fin (10 / 100))
                                        \<or> fgt (mean_bool (map (re_decimal_comma L) sample)) (Fin (10 / 100)));
                       coerced = map (\<lambda>v. to_numeric L (numeric_cleaned v)) sample;
                       success = mean_bool coerced
                   in if fge success (Fin (6 / 10)) \<and> (has_currency \<or> has_percent \<or> has_eu_number)
                      then Inr [NumericAsText col
                                  ((if has_currency then [CurrencySymbols] else [])
                                   @ (if has_percent then [PercentSigns] else [])
                                   @ (if has_eu_number then [EUNumberFormatting] else []))
                                  (py_round (fmul success 100) 2)]
                      else Inr [])
      | Frame cs \<Rightarrow> (if frame_dropna cs = [] then Inr [] else Inl AttributeError))"

subsection \<open>Detectors over the table\<close>

text \<open>
  A loop \<^verbatim>\<open>for col in df.columns\<close> without a handler: the first exception leaves the
  function.
\<close>

fun column_loop :: "(pystr \<Rightarrow> exn + issue list) \<Rightarrow> pystr list \<Rightarrow> exn + issue list" where
  "column_loop body [] = Inr []"
| "column_loop body (col # rest) =
     (case body col of
        Inl e \<Rightarrow> Inl e
      | Inr found \<Rightarrow>
          (case column_loop body rest of
             Inl e \<Rightarrow> Inl e
           | Inr others \<Rightarrow> Inr (found @ others)))"

definition detect_email_issues :: "lib \<Rightarrow> nat \<Rightarrow> dataframe \<Rightarrow> exn + issue list" where
  "detect_email_issues L ambient df = column_loop (email_column L ambient df) (map label df)"

definition detect_date_parse_issues :: "lib \<Rightarrow> nat \<Rightarrow> dataframe \<Rightarrow> exn + issue list" where
  "detect_date_parse_issues L ambient df = column_loop (date_column L ambient df) (map label df)"

definition detect_numeric_as_text_issues :: "lib \<Rightarrow> nat \<Rightarrow> dataframe \<Rightarrow> exn + issue list" where
  "detect_numeric_as_text_issues L ambient df = column_loop (numeric_column L ambient df) (map label df)"

definition pk_candidates :: "profile_row list \<Rightarrow> pystr list" where
  "pk_candidates profile_rows =
     map column_label
       (filter (\<lambda>r. fle (null_pct r) (Fin 1) \<and> fge (cardinality r) (Fin (98 / 100)) \<and> 1 < unique_values r)
          profile_rows)"

definition high_null_cols :: "profile_row list \<Rightarrow> (pystr \<times> pyfloat) list" where
  "high_null_cols profile_rows =
     map (\<lambda>r. (column_label r, null_pct r)) (filter (\<lambda>r. fge (null_pct r) (Fin 20)) profile_rows)"

definition the_fin :: "pyfloat \<Rightarrow> rat" where
  "the_fin a = (case a of Fin x \<Rightarrow> x | NaN \<Rightarrow> 0)"

text \<open>
  The loop of the mixed-types detector has a handler: a column on which
  \<^verbatim>\<open>infer_mixed_types\<close> raises is passed over.
\<close>

definition mixed_cols :: "lib \<Rightarrow> nat \<Rightarrow> dataframe \<Rightarrow> pystr list" where
  "mixed_cols L ambient df =
     filter (\<lambda>col. case infer_mixed_types L ambient (getitem df col) 200 of
                     Inl _ \<Rightarrow> False
                   | Inr b \<Rightarrow> b)
       (map label df)"

definition detect_issues :: "lib \<Rightarrow> nat \<Rightarrow> dataframe \<Rightarrow> profile_row list \<Rightarrow> exn + issue list" where
  "detect_issues L ambient df profile_rows =
     (let issues = [];
          issues = (if pk_candidates profile_rows \<noteq> []
                    then issues @ [PrimaryKeyCandidates (pk_candidates profile_rows)] else issues);
          n_dup = dup_count df;
          issues = (if 0 < n_dup then issues @ [DuplicateRows n_dup] else issues);
          issues = (if high_null_cols profile_rows \<noteq> []
                    then issues @ [HighMissing (sort_key (\<lambda>x. - the_fin (snd x)) (high_null_cols profile_rows))]
                    else issues);
          issues = (if mixed_cols L ambient df \<noteq> []
                    then issues @ [MixedTypes (mixed_cols L ambient df)] else issues)
      in case detect_email_issues L ambient df of
           Inl e \<Rightarrow> Inl e
         | Inr emails \<Rightarrow>
             (case detect_date_parse_issues L ambient df of
                Inl e \<Rightarrow> Inl e
              | Inr dates \<Rightarrow>
                  (case detect_numeric_as_text_issues L ambient df of
                     Inl e \<Rightarrow> Inl e
                   | Inr numerics \<Rightarrow> Inr (issues @ emails @ dates @ numerics))))"

section \<open>Report (app.py)\<close>

record dataset_info =
  rows :: nat
  columns :: nat
  missing_cells_total :: nat
  duplicate_rows_total :: nat

record report =
  dataset :: dataset_info
  profile :: "profile_row list"
  issues :: "issue list"

text \<open>The block under \<^verbatim>\<open>if run:\<close>: profile, issues, report.\<close>

definition run_inspection :: "lib \<Rightarrow> nat \<Rightarrow> dataframe \<Rightarrow> exn + report" where
  "run_inspection L ambient df =
     (case build_column_profile df of
        Inl e \<Rightarrow> Inl e
      | Inr profile_rows \<Rightarrow>
          (case detect_issues L ambient df profile_rows of
             Inl e \<Rightarrow> Inl e
           | Inr found \<Rightarrow>
               Inr \<lparr> dataset = \<lparr> rows = nrows df,
                                columns = length df,
                                missing_cells_total = sum_list (map (\<lambda>c. null_count (cells c)) df),
                                duplicate_rows_total = dup_count df \<rparr>,
                     profile = profile_rows,
                     issues = found \<rparr>))"

section \<open>Auxiliary notions for the statements\<close>

text \<open>The label is carried by exactly one column of the frame.\<close>

definition uniq :: "dataframe \<Rightarrow> pystr \<Rightarrow> bool" where
  "uniq df name \<longleftrightarrow> length (filter (\<lambda>l. l = name) (map label df)) = 1"

text \<open>
  The replacement rule in the words of the specification: a value is a null token when,
  after trimming and case-folding, it is one of the five strings.
\<close>

definition spec_null_token :: "lib \<Rightarrow> pystr \<Rightarrow> bool" where
  "spec_null_token L s \<longleftrightarrow> py_lower L (strip s) \<in> set NA_STRINGS"

section \<open>A library instance for concrete tables\<close>

text \<open>
  Stand-ins for the library functions, used to evaluate the model on small tables. They
  agree with Python on the inputs of the examples: ASCII letters for \<open>ascii_lower\<close>,
  booleans and one-digit integers for \<open>demo_str\<close>.
\<close>

definition ascii_lower :: "pystr \<Rightarrow> pystr" where
  "ascii_lower s = map (\<lambda>c. if 65 \<le> c \<and> c \<le> 90 then c + 32 else c) s"

definition demo_str :: "cell \<Rightarrow> pystr" where
  "demo_str x =
     (case x of
        VBool b \<Rightarrow> (if b then py ''True'' else py ''False'')
      | VInt i \<Rightarrow> [48 + nat i]
      | _ \<Rightarrow> py ''?'')"

definition demo_lib :: lib where
  "demo_lib =
     \<lparr> py_str = demo_str,
       py_lower = ascii_lower,
       seed_state = (\<lambda>seed. seed),
       permutation = (\<lambda>g n. if even g then rev [0..<n] else [0..<n]),
       to_datetime = map (\<lambda>s. s \<noteq> [] \<and> list_all (\<lambda>c. (48 \<le> c \<and> c \<le> 57) \<or> c = 45) s),
       to_numeric = (\<lambda>s. s \<noteq> [] \<and> list_all (\<lambda>c. (48 \<le> c \<and> c \<le> 57) \<or> c = 46) s),
       re_eu_thousands = (\<lambda>s. False),
       re_decimal_comma = (\<lambda>s. False) \<rparr>"

section \<open>Properties of the cleaner\<close>

subsection \<open>Trimming and the column loop\<close>

lemma dropWhile_strip_aux:
  assumes "t = [] \<or> \<not> P (hd t)"
  shows "dropWhile P (rev (dropWhile P (rev t))) = rev (dropWhile P (rev t))"
  by (metis assms dropWhile_eq_self_iff dropWhile_last hd_rev
    list.set_sel(1) rev.simps(1) rev_rev_ident set_rev)

lemma strip_idem: "strip (strip s) = strip s"
proof -
  let ?t = "dropWhile is_space s"
  have t: "?t = [] \<or> \<not> is_space (hd ?t)"
    by (metis hd_dropWhile)
  have "dropWhile is_space (strip s) = strip s"
    unfolding strip_def using dropWhile_strip_aux[of "dropWhile is_space s" is_space] t by blast
  then show ?thesis
    by (simp add: strip_def[of "strip s"]) (simp add: strip_def)
qed

lemma clean_cell_idem: "clean_cell L (clean_cell L x) = clean_cell L x"
  by (cases x) (simp_all add: clean_cell_def astype_string_def str_strip_def replace_na_def strip_idem)

lemma clean_cell_eq:
  "clean_cell L x =
     (if x = NA then NA
      else if strip (text_of L x) \<in> set NA_STRINGS then NA else VStr (strip (text_of L x)))"
  by (cases x) (simp_all add: clean_cell_def astype_string_def str_strip_def replace_na_def text_of_def)

lemma clean_column_idem: "clean_column L (clean_column L c) = clean_column L c"
  by (simp add: clean_column_def clean_cell_idem)

lemma clean_column_sel:
  "label (clean_column L c) = label c"
  "dtype (clean_column L c) = DString"
  "cells (clean_column L c) = map (clean_cell L) (cells c)"
  by (simp_all add: clean_column_def)

lemma uniq_filter: "uniq df n \<longleftrightarrow> length (filter (\<lambda>c. label c = n) df) = 1"
  by (simp add: uniq_def filter_map comp_def)

lemma uniq_cong: "map label a = map label b \<Longrightarrow> uniq a = uniq b"
  by (simp add: uniq_def fun_eq_iff)

lemma getitem_cases:
  "getitem df n =
     (if uniq df n then Series (hd (filter (\<lambda>c. label c = n) df))
      else Frame (filter (\<lambda>c. label c = n) df))"
  by (auto simp: getitem_def uniq_filter split: list.splits)

lemma uniq_member:
  assumes "uniq df n" and "c \<in> set df" and "label c = n"
  shows "hd (filter (\<lambda>c. label c = n) df) = c"
proof -
  from assms(2,3) have "c \<in> set (filter (\<lambda>c. label c = n) df)" by simp
  moreover from assms(1) obtain x where "filter (\<lambda>c. label c = n) df = [x]"
    by (auto simp: uniq_filter length_Suc_conv)
  ultimately show ?thesis by simp
qed

lemma clean_step_map:
  "(case getitem out n of
      Series c \<Rightarrow> (if is_text_dtype (dtype c) then setitem out n (clean_column L c) else out)
    | Frame _ \<Rightarrow> out)
   = map (\<lambda>c. if label c = n \<and> uniq out n \<and> is_text_dtype (dtype c) then clean_column L c else c) out"
  (is "?lhs = map ?f out")
proof (cases "uniq out n")
  case True
  let ?c = "hd (filter (\<lambda>c. label c = n) out)"
  have g: "getitem out n = Series ?c" by (simp add: getitem_cases True)
  have m: "\<And>c. c \<in> set out \<Longrightarrow> label c = n \<Longrightarrow> ?c = c"
    using uniq_member[OF True] by simp
  show ?thesis
  proof (cases "is_text_dtype (dtype ?c)")
    case t: True
    have "setitem out n (clean_column L ?c) = map ?f out"
      unfolding setitem_def by (rule map_cong) (use m t True in auto)
    with g t show ?thesis by simp
  next
    case f: False
    have "map ?f out = map (\<lambda>c. c) out"
      by (rule map_cong) (use m f in auto)
    with g f show ?thesis by simp
  qed
next
  case False
  then show ?thesis by (simp add: getitem_cases)
qed

lemma clean_loop_map:
  "clean_loop L ns out =
     map (\<lambda>c. if label c \<in> set ns \<and> uniq out (label c) \<and> is_text_dtype (dtype c)
               then clean_column L c else c) out"
proof (induction ns arbitrary: out)
  case Nil
  show ?case by simp
next
  case (Cons n ns)
  let ?f = "\<lambda>c. if label c = n \<and> uniq out n \<and> is_text_dtype (dtype c) then clean_column L c else c"
  let ?out' = "map ?f out"
  have lab: "map label ?out' = map label out"
    by (simp add: comp_def clean_column_def if_distrib cong: if_cong)
  have u: "uniq ?out' = uniq out"
    by (rule uniq_cong[OF lab])
  have "clean_loop L (n # ns) out = clean_loop L ns ?out'"
    by (simp only: clean_loop.simps clean_step_map)
  also have "\<dots> = map (\<lambda>c. if label c \<in> set ns \<and> uniq ?out' (label c) \<and> is_text_dtype (dtype c)
               then clean_column L c else c) ?out'"
    by (rule Cons.IH)
  also have "\<dots> = map (\<lambda>c. if label c \<in> set (n # ns) \<and> uniq out (label c) \<and> is_text_dtype (dtype c)
               then clean_column L c else c) out"
    unfolding u map_map
    by (rule map_cong) (auto simp: clean_column_idem clean_column_sel is_text_dtype_def)
  finally show ?case .
qed

lemma clean_False:
  "safe_clean_dataframe L df False =
     map (\<lambda>c. if uniq (strip_names df) (label c) \<and> is_text_dtype (dtype c) then clean_column L c else c)
       (strip_names df)"
  unfolding safe_clean_dataframe_def Let_def clean_loop_map
  by (simp cong: map_cong)

lemma clean_True:
  "safe_clean_dataframe L df True = drop_duplicates (safe_clean_dataframe L df False)"
  by (simp add: safe_clean_dataframe_def Let_def)

subsection \<open>Dropping duplicate rows\<close>

lemma length_duplicated: "length (duplicated df) = nrows df"
  by (simp add: duplicated_def duplicated_rows_def row_keys_def)

lemma kept_rows_bound: "i \<in> set (kept_rows df) \<Longrightarrow> i < nrows df"
  by (auto simp: kept_rows_def Let_def length_duplicated)

lemma nrows_map: "(\<And>c. length (cells (f c)) = length (cells c)) \<Longrightarrow> nrows (map f df) = nrows df"
  by (cases df) (simp_all add: nrows_def)

lemma nrows_drop_duplicates: "nrows (drop_duplicates df) = length (kept_rows df)"
proof (cases df)
  case Nil
  then show ?thesis
    by (simp add: drop_duplicates_def kept_rows_def Let_def length_duplicated) (simp add: nrows_def)
next
  case (Cons c cs)
  then show ?thesis by (simp add: nrows_def drop_duplicates_def take_rows_def)
qed

lemma mask_count_split:
  "length (filter (\<lambda>i. \<not> m ! i) [0..<length m]) + length (filter id m) = length m"
proof -
  have "length (filter id (map ((!) m) [0..<length m])) = length (filter (\<lambda>i. m ! i) [0..<length m])"
    by (simp add: filter_map comp_def)
  then have "length (filter id m) = length (filter (\<lambda>i. m ! i) [0..<length m])"
    by (simp add: map_nth)
  moreover have "length (filter (\<lambda>i. m ! i) [0..<length m]) + length (filter (\<lambda>i. \<not> m ! i) [0..<length m])
      = length [0..<length m]"
    by (rule sum_length_filter_compl)
  ultimately show ?thesis by simp
qed

lemma kept_plus_dup: "length (kept_rows df) + dup_count df = nrows df"
  using mask_count_split[of "duplicated df"]
  by (simp add: kept_rows_def dup_count_def Let_def length_duplicated)

lemma duplicated_rows_nth:
  "i < length rs \<Longrightarrow> duplicated_rows rs ! i \<longleftrightarrow> rs ! i \<in> set (take i rs)"
  by (simp add: duplicated_rows_def)

lemma distinct_kept:
  "distinct (map (\<lambda>i. rs ! i) (filter (\<lambda>i. \<not> duplicated_rows rs ! i) [0..<length rs]))"
proof -
  have inj: "inj_on (\<lambda>i. rs ! i) (set (filter (\<lambda>i. \<not> duplicated_rows rs ! i) [0..<length rs]))"
  proof (rule inj_onI)
    fix i j
    assume i: "i \<in> set (filter (\<lambda>i. \<not> duplicated_rows rs ! i) [0..<length rs])"
      and j: "j \<in> set (filter (\<lambda>i. \<not> duplicated_rows rs ! i) [0..<length rs])"
      and eq: "rs ! i = rs ! j"
    have aux: "\<And>a b. a < b \<Longrightarrow> b < length rs \<Longrightarrow> rs ! a = rs ! b \<Longrightarrow> duplicated_rows rs ! b"
    proof -
      fix a b assume "a < b" "b < length rs" "rs ! a = rs ! b"
      then have "rs ! b \<in> set (take b rs)"
        by (metis in_set_conv_nth length_take min.absorb2 less_imp_le nth_take)
      then show "duplicated_rows rs ! b" using \<open>b < length rs\<close> by (simp add: duplicated_rows_nth)
    qed
    show "i = j"
    proof (rule ccontr)
      assume "i \<noteq> j"
      then consider "i < j" | "j < i" by linarith
      then show False
      proof cases
        case 1 with aux[of i j] i j eq show False by simp
      next
        case 2 with aux[of j i] i j eq show False by simp
      qed
    qed
  qed
  show ?thesis using inj by (simp add: distinct_map)
qed

lemma duplicated_rows_distinct:
  assumes "distinct rs" and "i < length rs"
  shows "\<not> duplicated_rows rs ! i"
proof
  assume "duplicated_rows rs ! i"
  with assms(2) have "rs ! i \<in> set (take i rs)" by (simp add: duplicated_rows_nth)
  then obtain k where "k < i" "rs ! k = rs ! i"
    using assms(2) by (auto simp: in_set_conv_nth)
  with assms show False by (simp add: nth_eq_iff_index_eq)
qed

lemma kept_distinct:
  assumes "distinct rs"
  shows "filter (\<lambda>i. \<not> duplicated_rows rs ! i) [0..<length rs] = [0..<length rs]"
  using duplicated_rows_distinct[OF assms] by (simp add: filter_id_conv)

lemma wf_table_nth: "wf_table df \<Longrightarrow> c \<in> set df \<Longrightarrow> length (cells c) = nrows df"
  by (simp add: wf_table_def list_all_iff)

lemma row_keys_take:
  assumes "wf_table df" and "\<And>i. i \<in> set idx \<Longrightarrow> i < nrows df"
  shows "row_keys (map (take_rows idx) df) = map (\<lambda>i. row_keys df ! i) idx"
proof (cases df)
  case Nil
  with assms(2) have "idx = []" by (cases idx) (auto simp: nrows_def)
  with Nil show ?thesis by (simp add: row_keys_def nrows_def)
next
  case (Cons c cs)
  then have n: "nrows (map (take_rows idx) df) = length idx"
    by (simp add: nrows_def take_rows_def)
  have "row_keys (map (take_rows idx) df)
      = map (\<lambda>i. map (\<lambda>c. py_key (cells c ! (idx ! i))) df) [0..<length idx]"
    unfolding row_keys_def n by (simp add: take_rows_def comp_def)
  also have "\<dots> = map (\<lambda>k. map (\<lambda>c. py_key (cells c ! k)) df) (map (\<lambda>i. idx ! i) [0..<length idx])"
    by (simp add: comp_def)
  also have "\<dots> = map (\<lambda>k. map (\<lambda>c. py_key (cells c ! k)) df) idx"
    by (simp add: map_nth)
  also have "\<dots> = map (\<lambda>i. row_keys df ! i) idx"
    by (rule map_cong) (use assms(2) in \<open>auto simp: row_keys_def\<close>)
  finally show ?thesis .
qed

lemma map_nth_map: "map ((!) (map f ks)) [0..<length ks] = map f ks"
  using map_nth[of "map f ks"] by simp

lemma take_rows_upt: "n = length (cells c) \<Longrightarrow> take_rows [0..<n] c = c"
  by (simp add: take_rows_def map_nth)

lemma drop_duplicates_idem:
  assumes "wf_table df"
  shows "drop_duplicates (drop_duplicates df) = drop_duplicates df"
proof -
  let ?K = "kept_rows df"
  let ?rs = "row_keys df"
  have len: "length ?rs = nrows df" by (simp add: row_keys_def)
  have K: "?K = filter (\<lambda>i. \<not> duplicated_rows ?rs ! i) [0..<length ?rs]"
    by (simp add: kept_rows_def Let_def duplicated_def duplicated_rows_def)
  have rk: "row_keys (drop_duplicates df) = map (\<lambda>i. ?rs ! i) ?K"
    unfolding drop_duplicates_def by (rule row_keys_take[OF assms]) (rule kept_rows_bound)
  have d: "distinct (row_keys (drop_duplicates df))"
    unfolding rk K by (rule distinct_kept)
  have "kept_rows (drop_duplicates df) = [0..<length (row_keys (drop_duplicates df))]"
    using kept_distinct[OF d] by (simp add: kept_rows_def Let_def duplicated_def duplicated_rows_def)
  then have k2: "kept_rows (drop_duplicates df) = [0..<length ?K]"
    by (simp add: rk)
  show ?thesis
    unfolding drop_duplicates_def[of "drop_duplicates df"] k2
    by (simp add: drop_duplicates_def take_rows_def map_nth_map comp_def)
qed

subsection \<open>The cleaner on whole tables\<close>

lemma strip_names_label: "map label (strip_names df) = map (\<lambda>c. strip (label c)) df"
  by (simp add: strip_names_def comp_def)

lemma clean_False_labels:
  "map label (safe_clean_dataframe L df False) = map (\<lambda>c. strip (label c)) df"
  by (simp add: clean_False comp_def clean_column_sel if_distrib strip_names_def cong: if_cong)

lemma strip_names_fixed:
  assumes "\<And>c. c \<in> set df \<Longrightarrow> strip (label c) = label c"
  shows "strip_names df = df"
  unfolding strip_names_def using assms by (simp add: map_idI)

lemma clean_False_idem:
  "safe_clean_dataframe L (safe_clean_dataframe L df False) False = safe_clean_dataframe L df False"
proof -
  let ?Y = "safe_clean_dataframe L df False"
  have lab: "map label ?Y = map label (strip_names df)"
    by (simp add: clean_False_labels strip_names_label)
  have fixd: "strip_names ?Y = ?Y"
  proof (rule strip_names_fixed)
    fix c assume "c \<in> set ?Y"
    then have "label c \<in> set (map label ?Y)" by simp
    then show "strip (label c) = label c"
      unfolding clean_False_labels by (auto simp: strip_idem)
  qed
  have u: "uniq ?Y = uniq (strip_names df)" by (rule uniq_cong[OF lab])
  have "safe_clean_dataframe L ?Y False =
      map (\<lambda>c. if uniq (strip_names df) (label c) \<and> is_text_dtype (dtype c) then clean_column L c else c) ?Y"
    unfolding clean_False[of L ?Y] fixd u ..
  also have "\<dots> = ?Y"
    unfolding clean_False[of L df] map_map
    by (rule map_cong) (auto simp: clean_column_idem clean_column_sel is_text_dtype_def)
  finally show ?thesis .
qed

lemma take_rows_sel:
  "label (take_rows idx c) = label c"
  "dtype (take_rows idx c) = dtype c"
  "cells (take_rows idx c) = map (\<lambda>i. cells c ! i) idx"
  by (simp_all add: take_rows_def)

lemma clean_column_take_rows:
  assumes "\<And>i. i \<in> set idx \<Longrightarrow> i < length (cells c)"
  shows "clean_column L (take_rows idx c) = take_rows idx (clean_column L c)"
  using assms by (simp add: clean_column_def take_rows_def)

lemma strip_names_take_rows:
  "strip_names (map (take_rows idx) df) = map (take_rows idx) (strip_names df)"
  by (simp add: strip_names_def take_rows_def)

lemma clean_False_take_rows:
  assumes "wf_table df" and "\<And>i. i \<in> set idx \<Longrightarrow> i < nrows df"
  shows "safe_clean_dataframe L (map (take_rows idx) df) False
       = map (take_rows idx) (safe_clean_dataframe L df False)"
proof -
  let ?S = "strip_names df"
  have lab: "map label (map (take_rows idx) ?S) = map label ?S"
    by (simp add: take_rows_def comp_def)
  have u: "uniq (map (take_rows idx) ?S) = uniq ?S" by (rule uniq_cong[OF lab])
  have rng: "\<And>c i. c \<in> set ?S \<Longrightarrow> i \<in> set idx \<Longrightarrow> i < length (cells c)"
    using assms by (auto simp: strip_names_def wf_table_nth)
  show ?thesis
    unfolding clean_False strip_names_take_rows u map_map
    by (rule map_cong) (auto simp: clean_column_take_rows rng take_rows_sel)
qed

lemma nrows_clean_False: "nrows (safe_clean_dataframe L df False) = nrows df"
proof -
  have "nrows (safe_clean_dataframe L df False) = nrows (strip_names df)"
    unfolding clean_False by (rule nrows_map) (simp add: clean_column_sel)
  also have "\<dots> = nrows df"
    unfolding strip_names_def by (rule nrows_map) simp
  finally show ?thesis .
qed

lemma cells_clean_False:
  assumes "c' \<in> set (safe_clean_dataframe L df False)"
  shows "\<exists>c \<in> set df. length (cells c') = length (cells c)"
  using assms unfolding clean_False strip_names_def
  by (auto simp: clean_column_sel split: if_splits)

lemma wf_clean_False:
  assumes "wf_table df"
  shows "wf_table (safe_clean_dataframe L df False)"
  unfolding wf_table_def list_all_iff nrows_clean_False
  using cells_clean_False[of _ L df] wf_table_nth[OF assms] by auto

lemma clean_True_idem:
  assumes "wf_table df"
  shows "safe_clean_dataframe L (safe_clean_dataframe L df True) True = safe_clean_dataframe L df True"
proof -
  let ?Y = "safe_clean_dataframe L df False"
  have wfY: "wf_table ?Y" by (rule wf_clean_False[OF assms])
  have "safe_clean_dataframe L (drop_duplicates ?Y) False = map (take_rows (kept_rows ?Y)) (safe_clean_dataframe L ?Y False)"
    unfolding drop_duplicates_def by (rule clean_False_take_rows[OF wfY]) (rule kept_rows_bound)
  then have "safe_clean_dataframe L (drop_duplicates ?Y) False = drop_duplicates ?Y"
    by (simp add: clean_False_idem drop_duplicates_def)
  then show ?thesis
    by (simp add: clean_True drop_duplicates_idem[OF wfY])
qed

subsection \<open>Claims about the cleaner\<close>

lemmas clean_eval =
  safe_clean_dataframe_def strip_names_def getitem_def setitem_def clean_column_def clean_cell_def
  astype_string_def str_strip_def replace_na_def NA_STRINGS_def strip_def is_space_def
  is_text_dtype_def drop_duplicates_def kept_rows_def take_rows_def duplicated_def
  duplicated_rows_def row_keys_def nrows_def py_key_def py_def dup_count_def Let_def
  demo_lib_def demo_str_def text_of_def wf_table_def ascii_lower_def spec_null_token_def

lemma filter_eq_distinct:
  "distinct xs \<Longrightarrow> x \<in> set xs \<Longrightarrow> length (filter (\<lambda>l. l = x) xs) = 1"
  by (induction xs) (auto simp: filter_empty_conv)

lemma uniq_distinct:
  assumes "distinct (map label df)" and "c \<in> set df"
  shows "uniq df (label c)"
  using filter_eq_distinct[OF assms(1), of "label c"] assms(2) by (simp add: uniq_def)

lemma clean_False_nth:
  assumes "distinct (map (\<lambda>c. strip (label c)) df)" and "j < length df"
  shows "safe_clean_dataframe L df False ! j =
     (if is_text_dtype (dtype (df ! j))
      then clean_column L ((df ! j)\<lparr>label := strip (label (df ! j))\<rparr>)
      else (df ! j)\<lparr>label := strip (label (df ! j))\<rparr>)"
proof -
  let ?S = "strip_names df"
  have Sj: "?S ! j = (df ! j)\<lparr>label := strip (label (df ! j))\<rparr>"
    using assms(2) by (simp add: strip_names_def)
  have "?S ! j \<in> set ?S" using assms(2) by (simp add: strip_names_def)
  moreover have "distinct (map label ?S)" using assms(1) by (simp add: strip_names_label)
  ultimately have u: "uniq ?S (label (?S ! j))" by (simp add: uniq_distinct)
  have "safe_clean_dataframe L df False ! j =
      (if uniq ?S (label (?S ! j)) \<and> is_text_dtype (dtype (?S ! j)) then clean_column L (?S ! j) else ?S ! j)"
    unfolding clean_False using assms(2) by (simp add: strip_names_def)
  with u show ?thesis by (simp add: Sj)
qed

text \<open>
  C1 (as amended). In a table whose trimmed column names are distinct, the cleaner turns
  every cell of a text-typed (object or string) column into null when the cell is null or
  its trimmed text is exactly one of \<open>""\<close>, \<open>"na"\<close>, \<open>"n/a"\<close>, \<open>"null"\<close>, \<open>"none"\<close>, and into the
  trimmed text otherwise; the comparison is case-sensitive. With duplicate removal the
  result is this table without its duplicate rows.
\<close>

theorem clean_replaces_exact_tokens:
  assumes "distinct (map (\<lambda>c. strip (label c)) df)"
    and "j < length df"
    and "is_text_dtype (dtype (df ! j))"
    and "i < length (cells (df ! j))"
  shows "cells (safe_clean_dataframe L df False ! j) ! i =
           (let t = strip (text_of L (cells (df ! j) ! i)) in
            if cells (df ! j) ! i = NA then NA
            else if t \<in> {py '''', py ''na'', py ''n/a'', py ''null'', py ''none''} then NA
            else VStr t)
         \<and> safe_clean_dataframe L df True = drop_duplicates (safe_clean_dataframe L df False)"
proof -
  have "cells (safe_clean_dataframe L df False ! j) ! i = clean_cell L (cells (df ! j) ! i)"
    using assms by (simp add: clean_False_nth clean_column_sel)
  then show ?thesis
    by (simp add: clean_cell_eq clean_True Let_def NA_STRINGS_def)
qed

theorem clean_replaces_exact_tokens_witness:
  "cells (safe_clean_dataframe demo_lib
      [\<lparr>label = py '' name '', dtype = DObject,
        cells = [VStr (py '' n/a ''), VStr (py ''NA''), VInt 7, NA]\<rparr>] False ! 0) ! 0 = NA"
  using clean_replaces_exact_tokens[of
      "[\<lparr>label = py '' name '', dtype = DObject,
        cells = [VStr (py '' n/a ''), VStr (py ''NA''), VInt 7, NA]\<rparr>]" 0 0 demo_lib]
  by (simp add: is_text_dtype_def text_of_def strip_def is_space_def py_def)

text \<open>
  C1 as stated fails: \<open>"NA"\<close> is a null token after trimming and case-folding, and the
  cleaner keeps it.
\<close>

theorem clean_keeps_uppercase_NA:
  "spec_null_token demo_lib (py ''NA'')
   \<and> safe_clean_dataframe demo_lib
       [\<lparr>label = py ''c'', dtype = DString, cells = [VStr (py ''NA'')]\<rparr>] False
     = [\<lparr>label = py ''c'', dtype = DString, cells = [VStr (py ''NA'')]\<rparr>]
   \<and> safe_clean_dataframe demo_lib
       [\<lparr>label = py ''c'', dtype = DString, cells = [VStr (py ''NA'')]\<rparr>] True
     = [\<lparr>label = py ''c'', dtype = DString, cells = [VStr (py ''NA'')]\<rparr>]"
  by (simp add: clean_eval)

text \<open>
  C5 (as amended). The cleaner keeps the number and the order of the columns, with trimmed
  names. Without duplicate removal the row count is unchanged. With duplicate removal the
  row count is the original one minus the number of duplicate rows of the table after
  trimming and null replacement, so it is at most the original one and equal to it exactly
  when that normalised table has no duplicate row. A column that is not text-typed keeps
  its dtype and its cells (those of the surviving rows when duplicates are removed).
\<close>

theorem clean_shape:
  "length (safe_clean_dataframe L df b) = length df
   \<and> map label (safe_clean_dataframe L df b) = map (\<lambda>c. strip (label c)) df
   \<and> nrows (safe_clean_dataframe L df False) = nrows df
   \<and> nrows (safe_clean_dataframe L df True) + dup_count (safe_clean_dataframe L df False) = nrows df
   \<and> nrows (safe_clean_dataframe L df True) \<le> nrows df
   \<and> (nrows (safe_clean_dataframe L df True) = nrows df
        \<longleftrightarrow> dup_count (safe_clean_dataframe L df False) = 0)
   \<and> (\<forall>j < length df. \<not> is_text_dtype (dtype (df ! j)) \<longrightarrow>
          distinct (map (\<lambda>c. strip (label c)) df) \<longrightarrow>
          safe_clean_dataframe L df False ! j = (df ! j)\<lparr>label := strip (label (df ! j))\<rparr>
        \<and> safe_clean_dataframe L df True ! j =
            take_rows (kept_rows (safe_clean_dataframe L df False))
              ((df ! j)\<lparr>label := strip (label (df ! j))\<rparr>))"
proof -
  let ?Y = "safe_clean_dataframe L df False"
  have lenF: "length ?Y = length df" by (simp add: clean_False strip_names_def)
  have labT: "map label (drop_duplicates ?Y) = map label ?Y"
    by (simp add: drop_duplicates_def comp_def take_rows_sel)
  have c1: "length (safe_clean_dataframe L df b) = length df"
    by (cases b) (simp_all add: clean_True lenF drop_duplicates_def)
  have c2: "map label (safe_clean_dataframe L df b) = map (\<lambda>c. strip (label c)) df"
    by (cases b) (simp_all add: clean_True labT clean_False_labels)
  have c4: "nrows (safe_clean_dataframe L df True) + dup_count ?Y = nrows df"
    using kept_plus_dup[of ?Y] by (simp add: clean_True nrows_drop_duplicates nrows_clean_False)
  have c7: "\<And>j. j < length df \<Longrightarrow> \<not> is_text_dtype (dtype (df ! j)) \<Longrightarrow>
      distinct (map (\<lambda>c. strip (label c)) df) \<Longrightarrow>
          ?Y ! j = (df ! j)\<lparr>label := strip (label (df ! j))\<rparr>
        \<and> safe_clean_dataframe L df True ! j =
            take_rows (kept_rows ?Y) ((df ! j)\<lparr>label := strip (label (df ! j))\<rparr>)"
  proof -
    fix j assume j: "j < length df" and nt: "\<not> is_text_dtype (dtype (df ! j))"
      and d: "distinct (map (\<lambda>c. strip (label c)) df)"
    have a: "?Y ! j = (df ! j)\<lparr>label := strip (label (df ! j))\<rparr>"
      using clean_False_nth[OF d j, of L] nt by simp
    have "safe_clean_dataframe L df True ! j = take_rows (kept_rows ?Y) (?Y ! j)"
      using j lenF by (simp add: clean_True drop_duplicates_def)
    with a show "?Y ! j = (df ! j)\<lparr>label := strip (label (df ! j))\<rparr>
        \<and> safe_clean_dataframe L df True ! j =
            take_rows (kept_rows ?Y) ((df ! j)\<lparr>label := strip (label (df ! j))\<rparr>)"
      by simp
  qed
  from c4 have c5: "nrows (safe_clean_dataframe L df True) \<le> nrows df" by linarith
  from c4 have c6: "nrows (safe_clean_dataframe L df True) = nrows df \<longleftrightarrow> dup_count ?Y = 0"
    by linarith
  show ?thesis
    using c1 c2 nrows_clean_False[of L df] c4 c5 c6 c7 by blast
qed

theorem clean_shape_witness:
  "nrows (safe_clean_dataframe demo_lib
      [\<lparr>label = py ''a '', dtype = DString, cells = [VStr (py '' x''), VStr (py ''x'')]\<rparr>,
       \<lparr>label = py ''n'', dtype = DInt, cells = [VInt 1, VInt 1]\<rparr>] True) = 1
   \<and> safe_clean_dataframe demo_lib
      [\<lparr>label = py ''a '', dtype = DString, cells = [VStr (py '' x''), VStr (py ''x'')]\<rparr>,
       \<lparr>label = py ''n'', dtype = DInt, cells = [VInt 1, VInt 1]\<rparr>] False ! 1
     = \<lparr>label = py ''n'', dtype = DInt, cells = [VInt 1, VInt 1]\<rparr>"
  using clean_shape[of demo_lib
      "[\<lparr>label = py ''a '', dtype = DString, cells = [VStr (py '' x''), VStr (py ''x'')]\<rparr>,
       \<lparr>label = py ''n'', dtype = DInt, cells = [VInt 1, VInt 1]\<rparr>]" True]
  by (simp add: clean_eval)

text \<open>
  C5 as stated fails: a table without duplicate rows loses a row, because trimming makes
  two rows equal; and in an object column the number 7 is cast to the text \<open>"7"\<close>.
\<close>

theorem clean_trimming_creates_duplicates:
  "dup_count [\<lparr>label = py ''a'', dtype = DString, cells = [VStr (py '' x''), VStr (py ''x'')]\<rparr>] = 0
   \<and> nrows [\<lparr>label = py ''a'', dtype = DString, cells = [VStr (py '' x''), VStr (py ''x'')]\<rparr>] = 2
   \<and> nrows (safe_clean_dataframe demo_lib
        [\<lparr>label = py ''a'', dtype = DString, cells = [VStr (py '' x''), VStr (py ''x'')]\<rparr>] True) = 1
   \<and> safe_clean_dataframe demo_lib
        [\<lparr>label = py ''m'', dtype = DObject, cells = [VInt 7, VStr (py ''x'')]\<rparr>] False
     = [\<lparr>label = py ''m'', dtype = DString, cells = [VStr (py ''7''), VStr (py ''x'')]\<rparr>]"
  by (simp add: clean_eval)

text \<open>
  C6. On a table whose columns all have the length of the index, cleaning with duplicate
  removal is idempotent.
\<close>

theorem clean_idempotent:
  assumes "wf_table df"
  shows "safe_clean_dataframe L (safe_clean_dataframe L df True) True
       = safe_clean_dataframe L df True"
  using assms by (rule clean_True_idem)

theorem clean_idempotent_witness:
  "safe_clean_dataframe demo_lib (safe_clean_dataframe demo_lib
      [\<lparr>label = py '' a'', dtype = DObject, cells = [VStr (py '' x''), VStr (py ''x''), VStr (py ''null '')]\<rparr>,
       \<lparr>label = py ''n'', dtype = DInt, cells = [VInt 1, VInt 1, VInt 2]\<rparr>] True) True
   = safe_clean_dataframe demo_lib
      [\<lparr>label = py '' a'', dtype = DObject, cells = [VStr (py '' x''), VStr (py ''x''), VStr (py ''null '')]\<rparr>,
       \<lparr>label = py ''n'', dtype = DInt, cells = [VInt 1, VInt 1, VInt 2]\<rparr>] True"
  by (rule clean_idempotent) (simp add: wf_table_def nrows_def)

section \<open>Properties of the profiler\<close>

lemma round_half_even_bounds:
  assumes "0 \<le> y" and "y \<le> of_int N"
  shows "0 \<le> round_half_even y \<and> round_half_even y \<le> N"
proof -
  let ?f = "\<lfloor>y\<rfloor>"
  have f0: "0 \<le> ?f" using assms(1) by simp
  have cases: "round_half_even y = ?f \<or> round_half_even y = ?f + 1"
    by (simp add: round_half_even_def Let_def)
  show ?thesis
  proof (cases "y = of_int N")
    case True
    then have "round_half_even y = N" by (simp add: round_half_even_def Let_def)
    with f0 True show ?thesis by simp
  next
    case False
    with assms(2) have "y < of_int N" by simp
    then have "?f < N" by (simp add: floor_less_iff)
    with f0 cases show ?thesis by auto
  qed
qed

lemma py_round_bounds:
  assumes "0 \<le> q" and "q \<le> of_int M"
  shows "\<exists>r. py_round (Fin q) nd = Fin r \<and> 0 \<le> r \<and> r \<le> of_int M"
proof -
  let ?y = "q * 10 ^ nd"
  have y0: "0 \<le> ?y" using assms(1) by simp
  have yN: "?y \<le> of_int (M * 10 ^ nd)" using assms(2) by (simp add: mult_right_mono)
  from round_half_even_bounds[OF y0 yN]
  have lo: "0 \<le> round_half_even ?y" and hi: "round_half_even ?y \<le> M * 10 ^ nd" by auto
  have "(of_int (round_half_even ?y) :: rat) \<le> of_int (M * 10 ^ nd)"
    using hi by (simp only: of_int_le_iff)
  then have "(of_int (round_half_even ?y) :: rat) / 10 ^ nd \<le> of_int M"
    by (simp add: divide_le_eq)
  moreover have "0 \<le> (of_int (round_half_even ?y) :: rat) / 10 ^ nd"
    using lo by simp
  ultimately show ?thesis by (simp add: py_round_def)
qed

lemma null_count_le: "null_count xs \<le> length xs"
  by (simp add: null_count_def)

lemma nunique_le: "nunique xs \<le> length xs"
proof -
  have "nunique xs \<le> length (dropna xs)"
    unfolding nunique_def by (metis length_remdups_leq length_map)
  also have "\<dots> \<le> length xs" by (simp add: dropna_def)
  finally show ?thesis .
qed

text \<open>
  On a table with at least one row the profile is in range: the null percentage lies
  between 0 and 100 and the cardinality between 0 and 1.
\<close>

lemma profile_in_range_on_rows:
  assumes "0 < length (cells c)" and "length (cells c) = n"
  shows "\<exists>p k. null_pct (profile_column n c) = Fin p \<and> 0 \<le> p \<and> p \<le> 100
             \<and> cardinality (profile_column n c) = Fin k \<and> 0 \<le> k \<and> k \<le> 1"
proof -
  let ?m = "length (cells c)"
  have q: "0 \<le> (of_nat (null_count (cells c)) / of_nat ?m * 100 :: rat)
      \<and> (of_nat (null_count (cells c)) / of_nat ?m * 100 :: rat) \<le> of_int 100"
    using assms(1) null_count_le[of "cells c"] by (simp add: divide_le_eq)
  have u: "0 \<le> (of_nat (nunique (cells c)) / of_nat n :: rat)
      \<and> (of_nat (nunique (cells c)) / of_nat n :: rat) \<le> of_int 1"
    using assms nunique_le[of "cells c"] by (simp add: divide_le_eq)
  from py_round_bounds[of "of_nat (null_count (cells c)) / of_nat ?m * 100" 100 2] q
  obtain p where p: "py_round (Fin (of_nat (null_count (cells c)) / of_nat ?m * 100)) 2 = Fin p"
    "0 \<le> p" "p \<le> 100" by auto
  from py_round_bounds[of "of_nat (nunique (cells c)) / of_nat n" 1 3] u
  obtain k where k: "py_round (Fin (of_nat (nunique (cells c)) / of_nat n)) 3 = Fin k"
    "0 \<le> k" "k \<le> 1" by auto
  from p k assms show ?thesis
    by (simp add: profile_column_def null_pct_of_def cardinality_of_def mean_of_count_def fmul_def)
qed

subsection \<open>Where the engine returns\<close>

lemma column_loop_total:
  assumes "\<And>col. col \<in> set cols \<Longrightarrow> \<exists>ys. body col = Inr ys"
  shows "\<exists>xs. column_loop body cols = Inr xs"
  using assms
proof (induction cols)
  case Nil
  show ?case by simp
next
  case (Cons c cols)
  from Cons.prems[of c] obtain ys where ys: "body c = Inr ys" by auto
  from Cons.IH Cons.prems obtain xs where "column_loop body cols = Inr xs" by auto
  with ys show ?case by simp
qed

lemma detectors_return_on_Series:
  assumes "uniq df col"
  shows "\<exists>ys. email_column L a df col = Inr ys"
    and "\<exists>ys. date_column L a df col = Inr ys"
    and "\<exists>ys. numeric_column L a df col = Inr ys"
  using assms
  by (simp_all add: email_column_def date_column_def numeric_column_def getitem_cases Let_def)

lemma profile_loop_total:
  assumes "\<And>col. col \<in> set cols \<Longrightarrow> uniq df col"
  shows "\<exists>rs. profile_loop df cols = Inr rs"
  using assms
proof (induction cols)
  case Nil
  show ?case by simp
next
  case (Cons c cols)
  from Cons.IH Cons.prems obtain rs where "profile_loop df cols = Inr rs" by auto
  with Cons.prems[of c] show ?case by (simp add: getitem_cases)
qed

text \<open>
  When the labels of the table are distinct, every \<^verbatim>\<open>df[col]\<close> is a series and the
  whole inspection returns a report.
\<close>

lemma run_inspection_returns:
  assumes "distinct (map label df)"
  shows "\<exists>r. run_inspection L ambient df = Inr r"
proof -
  have u: "\<And>col. col \<in> set (map label df) \<Longrightarrow> uniq df col"
    using uniq_distinct[OF assms] by auto
  from profile_loop_total[of "map label df" df] u obtain prof where
    p: "build_column_profile df = Inr prof" by (auto simp: build_column_profile_def)
  from column_loop_total[of "map label df" "email_column L ambient df"] detectors_return_on_Series(1) u
  obtain em where em: "detect_email_issues L ambient df = Inr em"
    by (auto simp: detect_email_issues_def)
  from column_loop_total[of "map label df" "date_column L ambient df"] detectors_return_on_Series(2) u
  obtain da where da: "detect_date_parse_issues L ambient df = Inr da"
    by (auto simp: detect_date_parse_issues_def)
  from column_loop_total[of "map label df" "numeric_column L ambient df"] detectors_return_on_Series(3) u
  obtain nu where nu: "detect_numeric_as_text_issues L ambient df = Inr nu"
    by (auto simp: detect_numeric_as_text_issues_def)
  from em da nu have "\<exists>found. detect_issues L ambient df prof = Inr found"
    by (simp add: detect_issues_def Let_def)
  with p show ?thesis by (auto simp: run_inspection_def)
qed

section \<open>Properties of the rule engine and the report\<close>

lemmas engine_eval =
  run_inspection_def build_column_profile_def profile_column_def null_pct_of_def cardinality_of_def
  mean_of_count_def mean_bool_def fmul_def py_round_def round_half_even_def null_count_def nunique_def
  dropna_def isna_def min_max_def is_numeric_dtype_def is_datetime64_any_dtype_def series_min_def
  series_max_def num_of_def detect_issues_def pk_candidates_def high_null_cols_def the_fin_def
  fle_def fge_def fgt_def mixed_cols_def infer_mixed_types_def pd_sample_def frame_dropna_def
  type_name_def detect_email_issues_def detect_date_parse_issues_def detect_numeric_as_text_issues_def
  email_column_def date_column_def numeric_column_def detector_sample_def str_values_def
  looks_like_email_column_def looks_like_date_column_def looks_like_numeric_column_def
  contains_def endswith_def EMAIL_REGEX_def email_core_def domain_ok_def is_local_char_def
  is_domain_char_def is_alnum_def is_alpha_def numeric_cleaned_def currency_symbols_def
  getitem_def dup_count_def duplicated_def duplicated_rows_def row_keys_def nrows_def py_key_def
  demo_lib_def demo_str_def ascii_lower_def text_of_def strip_def is_space_def py_def Let_def

subsection \<open>Sampling does not read the ambient generator\<close>

lemma pd_sample_seeded:
  "pd_sample L ambient (Some seed) n xs =
     map (\<lambda>i. xs ! i) (take n (permutation L (seed_state L seed) (length xs)))"
  by (simp add: pd_sample_def)

lemma detector_sample_ambient: "detector_sample L a xs = detector_sample L b xs"
  by (simp add: detector_sample_def pd_sample_seeded)

lemma infer_mixed_types_ambient: "infer_mixed_types L a it k = infer_mixed_types L b it k"
  unfolding infer_mixed_types_def pd_sample_seeded ..

lemma email_column_ambient: "email_column L a df col = email_column L b df col"
  unfolding email_column_def detector_sample_ambient[of L a _ b] ..

lemma date_column_ambient: "date_column L a df col = date_column L b df col"
  unfolding date_column_def detector_sample_ambient[of L a _ b] ..

lemma numeric_column_ambient: "numeric_column L a df col = numeric_column L b df col"
  unfolding numeric_column_def detector_sample_ambient[of L a _ b] ..

lemma detect_issues_ambient: "detect_issues L a df prof = detect_issues L b df prof"
proof -
  have e: "email_column L a df = email_column L b df"
    by (rule ext) (rule email_column_ambient)
  have d: "date_column L a df = date_column L b df"
    by (rule ext) (rule date_column_ambient)
  have n: "numeric_column L a df = numeric_column L b df"
    by (rule ext) (rule numeric_column_ambient)
  have m: "mixed_cols L a df = mixed_cols L b df"
    unfolding mixed_cols_def infer_mixed_types_ambient[of L a _ _ b] ..
  show ?thesis
    unfolding detect_issues_def detect_email_issues_def detect_date_parse_issues_def
      detect_numeric_as_text_issues_def e d n m ..
qed

text \<open>
  C8. Two runs of the pipeline on one table give the same result, whatever the state of
  the ambient random generator at the start of each run: every sample is drawn from a
  generator seeded with 42.
\<close>

theorem pipeline_deterministic:
  "run_inspection L ambient1 df = run_inspection L ambient2 df"
  unfolding run_inspection_def detect_issues_ambient[of L ambient1 _ _ ambient2] ..

theorem pipeline_deterministic_witness:
  "run_inspection demo_lib 0
      [\<lparr>label = py ''id'', dtype = DObject, cells = [VInt 1, VStr (py ''x''), VInt 1]\<rparr>]
   = run_inspection demo_lib 1
      [\<lparr>label = py ''id'', dtype = DObject, cells = [VInt 1, VStr (py ''x''), VInt 1]\<rparr>]"
  by (rule pipeline_deterministic)

text \<open>A sample without a seed does depend on the ambient generator.\<close>

lemma unseeded_sample_depends_on_ambient:
  "pd_sample demo_lib 0 None 1 [VInt 1, VInt 2] \<noteq> pd_sample demo_lib 1 None 1 [VInt 1, VInt 2]"
  by (simp add: pd_sample_def demo_lib_def)

subsection \<open>The duplicate-row count\<close>

lemma column_loop_set:
  "column_loop body cols = Inr xs \<Longrightarrow> x \<in> set xs \<Longrightarrow> \<exists>col ys. body col = Inr ys \<and> x \<in> set ys"
proof (induction cols arbitrary: xs)
  case Nil
  then show ?case by simp
next
  case (Cons c cols)
  then show ?case
    by (auto split: sum.splits) blast+
qed

lemma email_column_kind:
  "email_column L a df col = Inr ys \<Longrightarrow> y \<in> set ys \<Longrightarrow> \<exists>p r. y = InvalidEmails p r"
  by (auto simp: email_column_def Let_def split: if_splits item.splits)

lemma date_column_kind:
  "date_column L a df col = Inr ys \<Longrightarrow> y \<in> set ys \<Longrightarrow> \<exists>p r. y = DateParsing p r"
  by (auto simp: date_column_def Let_def split: if_splits item.splits)

lemma numeric_column_kind:
  "numeric_column L a df col = Inr ys \<Longrightarrow> y \<in> set ys \<Longrightarrow> \<exists>p h r. y = NumericAsText p h r"
  by (auto simp: numeric_column_def Let_def split: if_splits item.splits)

lemma detect_issues_duplicates:
  assumes "detect_issues L a df prof = Inr found"
  shows "DuplicateRows k \<in> set found \<longleftrightarrow> k = dup_count df \<and> 0 < k"
proof -
  from assms obtain em da nu where
    em: "detect_email_issues L a df = Inr em" and
    da: "detect_date_parse_issues L a df = Inr da" and
    nu: "detect_numeric_as_text_issues L a df = Inr nu"
    by (auto simp: detect_issues_def Let_def split: sum.splits)
  have nem: "DuplicateRows k \<notin> set em"
    using column_loop_set[OF em[unfolded detect_email_issues_def]] email_column_kind by blast
  have nda: "DuplicateRows k \<notin> set da"
    using column_loop_set[OF da[unfolded detect_date_parse_issues_def]] date_column_kind by blast
  have nnu: "DuplicateRows k \<notin> set nu"
    using column_loop_set[OF nu[unfolded detect_numeric_as_text_issues_def]] numeric_column_kind by blast
  from assms em da nu nem nda nnu show ?thesis
    by (auto simp: detect_issues_def Let_def split: if_splits)
qed

text \<open>
  C7. In a report, \<open>duplicate_rows_total\<close> is the number of duplicate rows of the table,
  and the issue of the duplicate-rows detector, which is there exactly when that number is
  positive, carries the same number.
\<close>

theorem duplicate_count_agrees:
  assumes "run_inspection L ambient df = Inr r"
  shows "duplicate_rows_total (dataset r) = dup_count df
       \<and> (\<forall>k. DuplicateRows k \<in> set (issues r) \<longleftrightarrow> k = duplicate_rows_total (dataset r) \<and> 0 < k)"
proof -
  from assms obtain prof found where
    "detect_issues L ambient df prof = Inr found" and
    r: "r = \<lparr> dataset = \<lparr> rows = nrows df, columns = length df,
                missing_cells_total = sum_list (map (\<lambda>c. null_count (cells c)) df),
                duplicate_rows_total = dup_count df \<rparr>,
              profile = prof, issues = found \<rparr>"
    by (auto simp: run_inspection_def split: sum.splits)
  then show ?thesis using detect_issues_duplicates by simp
qed

theorem duplicate_count_agrees_witness:
  "run_inspection demo_lib 0 [\<lparr>label = py ''id'', dtype = DInt, cells = [VInt 1, VInt 1]\<rparr>]
     = Inr \<lparr> dataset = \<lparr> rows = 2, columns = 1, missing_cells_total = 0, duplicate_rows_total = 1 \<rparr>,
             profile = [\<lparr> column_label = py ''id'', dtype_name = DInt, null_pct = Fin 0,
                          unique_values = 1, cardinality = Fin (1 / 2),
                          min_val = Some (VInt 1), max_val = Some (VInt 1) \<rparr>],
             issues = [DuplicateRows 1] \<rparr>
   \<and> (\<forall>k. DuplicateRows k \<in> set [DuplicateRows 1] \<longleftrightarrow> k = 1 \<and> 0 < k)"
proof -
  have h: "run_inspection demo_lib 0 [\<lparr>label = py ''id'', dtype = DInt, cells = [VInt 1, VInt 1]\<rparr>]
     = Inr \<lparr> dataset = \<lparr> rows = 2, columns = 1, missing_cells_total = 0, duplicate_rows_total = 1 \<rparr>,
             profile = [\<lparr> column_label = py ''id'', dtype_name = DInt, null_pct = Fin 0,
                          unique_values = 1, cardinality = Fin (1 / 2),
                          min_val = Some (VInt 1), max_val = Some (VInt 1) \<rparr>],
             issues = [DuplicateRows 1] \<rparr>"
    by (simp add: engine_eval)
  from duplicate_count_agrees[OF h] h show ?thesis by (simp add: engine_eval)
qed

subsection \<open>Exceptions in the detectors\<close>

text \<open>
  C3 fails on the code. Two columns carry the label \<open>email\<close>, so \<^verbatim>\<open>df["email"]\<close> is a
  \<^verbatim>\<open>DataFrame\<close>. The mixed-types loop catches the exception of its column and reports
  nothing; the e-mail detector has no handler, and its exception leaves
  \<open>detect_issues\<close>. With distinct labels nothing raises (\<open>run_inspection_returns\<close>).
\<close>

theorem detect_issues_aborts_on_email_column:
  "mixed_cols demo_lib 0
      [\<lparr>label = py ''email'', dtype = DString, cells = [VStr (py ''a@b.co'')]\<rparr>,
       \<lparr>label = py ''email'', dtype = DString, cells = [VStr (py ''a@b.co'')]\<rparr>] = []
   \<and> infer_mixed_types demo_lib 0 (getitem
      [\<lparr>label = py ''email'', dtype = DString, cells = [VStr (py ''a@b.co'')]\<rparr>,
       \<lparr>label = py ''email'', dtype = DString, cells = [VStr (py ''a@b.co'')]\<rparr>] (py ''email'')) 200
     = Inl AttributeError
   \<and> detect_issues demo_lib 0
      [\<lparr>label = py ''email'', dtype = DString, cells = [VStr (py ''a@b.co'')]\<rparr>,
       \<lparr>label = py ''email'', dtype = DString, cells = [VStr (py ''a@b.co'')]\<rparr>] []
     = Inl AttributeError"
  by (simp add: engine_eval)

subsection \<open>The profile of a table without rows\<close>

text \<open>
  C4 fails on the code. On a table with a column and no row, the cardinality is 0.0, by
  the guard on \<^verbatim>\<open>len(df)\<close>, and the null rate is the mean of an empty series, which is
  \<open>NaN\<close>. On tables with rows both values are in range (\<open>profile_in_range_on_rows\<close>).
\<close>

theorem profile_of_empty_table_has_nan_null_rate:
  "build_column_profile [\<lparr>label = py ''a'', dtype = DInt, cells = []\<rparr>]
   = Inr [\<lparr>column_label = py ''a'', dtype_name = DInt, null_pct = NaN, unique_values = 0,
           cardinality = Fin 0, min_val = Some NA, max_val = Some NA\<rparr>]"
  by (simp add: engine_eval)

subsection \<open>Sample sizes\<close>

lemma lib_ok_length: "lib_ok L \<Longrightarrow> length (permutation L g n) = n"
  by (simp add: lib_ok_def)

lemma lib_ok_range: "lib_ok L \<Longrightarrow> i \<in> set (permutation L g n) \<Longrightarrow> i < n"
  by (simp add: lib_ok_def)

lemma take_min_length: "length p = n \<Longrightarrow> take (min k n) p = take k p"
  by (cases "k \<le> n") (simp_all add: min_def)

lemma detector_sample_eq:
  assumes "lib_ok L"
  shows "detector_sample L a xs = map (\<lambda>i. xs ! i) (take 2000 (permutation L (seed_state L 42) (length xs)))"
  using take_min_length[where k=2000, OF lib_ok_length[OF assms, of "seed_state L 42" "length xs"]]
  by (simp add: detector_sample_def pd_sample_seeded)














subsection \<open>Thresholds on the rounded profile\<close>











subsection \<open>The e-mail detector\<close>

lemma local_not_space: "is_local_char c \<Longrightarrow> \<not> is_space c"
  by (auto simp: is_local_char_def is_alnum_def is_space_def)

lemma alpha_not_space: "is_alpha c \<Longrightarrow> \<not> is_space c"
  by (auto simp: is_alpha_def is_space_def)

lemma domain_ok_last:
  assumes "domain_ok d"
  shows "d \<noteq> [] \<and> is_alpha (last d)"
proof -
  let ?t = "takeWhile (\<lambda>c. c \<noteq> 46) (rev d)"
  from assms have al: "list_all is_alpha ?t" and len: "2 \<le> length ?t"
    by (auto simp: domain_ok_def Let_def list_all_iff)
  from len have ne: "?t \<noteq> []" by auto
  then have d: "rev d \<noteq> []" by auto
  from ne have "hd ?t = hd (rev d)" by (cases "rev d") (auto split: if_splits)
  moreover from ne al have "is_alpha (hd ?t)" by (cases ?t) auto
  ultimately have "is_alpha (hd (rev d))" by simp
  with d show ?thesis by (simp add: hd_rev)
qed

lemma email_core_ends:
  assumes "email_core t"
  shows "t \<noteq> [] \<and> \<not> is_space (hd t) \<and> \<not> is_space (last t)"
proof -
  let ?loc = "takeWhile is_local_char t" and ?r = "dropWhile is_local_char t"
  from assms have loc: "?loc \<noteq> []" and r: "?r \<noteq> []" and dom: "domain_ok (tl ?r)"
    by (auto simp: email_core_def Let_def)
  from loc have t: "t \<noteq> []" by auto
  from loc have "is_local_char (hd t)" by (cases t) (auto split: if_splits)
  then have h: "\<not> is_space (hd t)" by (rule local_not_space)
  from domain_ok_last[OF dom] have tl: "tl ?r \<noteq> []" and a: "is_alpha (last (tl ?r))" by auto
  have "t = ?loc @ ?r" by simp
  then have "last t = last ?r" using r by (metis last_appendR)
  also have "\<dots> = last (tl ?r)" using tl by (metis last_tl)
  finally have "\<not> is_space (last t)" using a alpha_not_space by simp
  with t h show ?thesis by simp
qed

lemma strip_pad:
  assumes "t \<noteq> []" and "\<not> is_space (hd t)" and "\<not> is_space (last t)"
    and "list_all is_space w1" and "list_all is_space w2"
  shows "strip (w1 @ t @ w2) = t"
proof -
  have a: "dropWhile is_space (w1 @ t @ w2) = t @ w2"
  proof -
    have "dropWhile is_space (w1 @ t @ w2) = dropWhile is_space (t @ w2)"
      by (rule dropWhile_append2) (use assms(4) in \<open>simp add: list_all_iff\<close>)
    also have "\<dots> = t @ w2" using assms(1,2) by (cases t) auto
    finally show ?thesis .
  qed
  have b: "dropWhile is_space (rev w2 @ rev t) = rev t"
  proof -
    have "dropWhile is_space (rev w2 @ rev t) = dropWhile is_space (rev t)"
      by (rule dropWhile_append2) (use assms(5) in \<open>simp add: list_all_iff\<close>)
    also have "\<dots> = rev t" using assms(1,3) by (cases "rev t") (auto simp: hd_rev[symmetric])
    finally show ?thesis .
  qed
  show ?thesis by (simp add: strip_def a b)
qed

lemma email_regex_padded:
  assumes "EMAIL_REGEX a" and "list_all is_space w1" and "list_all is_space w2"
  shows "EMAIL_REGEX (strip (w1 @ a @ w2))"
proof -
  from assms(1) consider (plain) "email_core a"
    | (nl) "a \<noteq> []" "last a = 10" "email_core (butlast a)"
    by (auto simp: EMAIL_REGEX_def)
  then show ?thesis
  proof cases
    case plain
    from email_core_ends[OF plain] assms(2,3) have "strip (w1 @ a @ w2) = a"
      by (simp add: strip_pad)
    with plain show ?thesis by (simp add: EMAIL_REGEX_def)
  next
    case nl
    let ?t = "butlast a"
    have sp: "list_all is_space ([10] @ w2)" using assms(3) by (simp add: is_space_def)
    have "?t @ [10] = a" using nl(1,2) by (metis append_butlast_last_id)
    then have "w1 @ a @ w2 = w1 @ ?t @ ([10] @ w2)" by (metis append.assoc)
    moreover have "strip (w1 @ ?t @ ([10] @ w2)) = ?t"
      using email_core_ends[OF nl(3)] by (intro strip_pad[OF _ _ _ assms(2) sp]) simp_all
    ultimately have "strip (w1 @ a @ w2) = ?t" by (simp only:)
    with nl(3) show ?thesis by (simp add: EMAIL_REGEX_def)
  qed
qed

lemma detector_sample_map:
  assumes "lib_ok L"
  shows "detector_sample L a (map f xs) = map f (detector_sample L a xs)"
proof -
  have "\<And>i. i \<in> set (take 2000 (permutation L (seed_state L 42) (length xs))) \<Longrightarrow> i < length xs"
    using lib_ok_range[OF assms] by (meson in_set_takeD)
  then show ?thesis
    by (simp add: detector_sample_eq[OF assms])
qed

lemma mean_bool_map_not:
  "mean_bool (map (\<lambda>v. \<not> P v) ys) = mean_of_count (length (filter (\<lambda>v. \<not> P v) ys)) (length ys)"
  by (simp add: mean_bool_def filter_map comp_def)

text \<open>
  C10. On a column it scans, the e-mail detector counts as invalid exactly the sampled
  values whose text, trimmed of surrounding whitespace, does not match the pattern, and
  emits its issue when they are at least 5% of the sample. An address that matches the
  pattern still matches when whitespace surrounds it.
\<close>

theorem email_trims_before_matching:
  assumes "lib_ok L"
    and "getitem df col = Series c"
    and "looks_like_email_column L col"
    and "dropna (cells c) \<noteq> []"
  shows "email_column L ambient df col =
           (let sampled = detector_sample L ambient (dropna (cells c));
                invalid = filter (\<lambda>x. \<not> EMAIL_REGEX (strip (text_of L x))) sampled;
                invalid_rate = mean_of_count (length invalid) (length sampled)
            in if fge invalid_rate (Fin (5 / 100))
               then Inr [InvalidEmails col (py_round (fmul invalid_rate 100) 2)]
               else Inr [])
       \<and> (\<forall>a w1 w2. EMAIL_REGEX a \<longrightarrow> list_all is_space w1 \<longrightarrow> list_all is_space w2 \<longrightarrow>
             EMAIL_REGEX (strip (w1 @ a @ w2)))"
proof -
  have s: "detector_sample L ambient (str_values L (dropna (cells c)))
      = map (\<lambda>x. strip (text_of L x)) (detector_sample L ambient (dropna (cells c)))"
    unfolding str_values_def by (rule detector_sample_map[OF assms(1)])
  have m: "mean_bool (map (\<lambda>v. \<not> EMAIL_REGEX v) (detector_sample L ambient (str_values L (dropna (cells c)))))
      = mean_of_count
          (length (filter (\<lambda>x. \<not> EMAIL_REGEX (strip (text_of L x))) (detector_sample L ambient (dropna (cells c)))))
          (length (detector_sample L ambient (dropna (cells c))))"
    unfolding s by (simp add: mean_bool_def filter_map comp_def)
  have "email_column L ambient df col =
           (let sampled = detector_sample L ambient (dropna (cells c));
                invalid = filter (\<lambda>x. \<not> EMAIL_REGEX (strip (text_of L x))) sampled;
                invalid_rate = mean_of_count (length invalid) (length sampled)
            in if fge invalid_rate (Fin (5 / 100))
               then Inr [InvalidEmails col (py_round (fmul invalid_rate 100) 2)]
               else Inr [])"
    using assms(2,3,4) by (simp add: email_column_def Let_def m)
  then show ?thesis using email_regex_padded by blast
qed

theorem email_trims_before_matching_witness:
  "email_column demo_lib 0
      [\<lparr>label = py ''email'', dtype = DString, cells = [VStr (py '' a@b.co ''), VStr (py ''bad'')]\<rparr>]
      (py ''email'')
   = Inr [InvalidEmails (py ''email'') (Fin 50)]
   \<and> EMAIL_REGEX (strip (py '' a@b.co ''))"
proof -
  have g: "getitem [\<lparr>label = py ''email'', dtype = DString, cells = [VStr (py '' a@b.co ''), VStr (py ''bad'')]\<rparr>]
      (py ''email'')
    = Series \<lparr>label = py ''email'', dtype = DString, cells = [VStr (py '' a@b.co ''), VStr (py ''bad'')]\<rparr>"
    by (simp add: getitem_def)
  have l: "looks_like_email_column demo_lib (py ''email'')"
    by (simp add: engine_eval)
  have d: "dropna (cells \<lparr>label = py ''email'', dtype = DString, cells = [VStr (py '' a@b.co ''), VStr (py ''bad'')]\<rparr>) \<noteq> []"
    by (simp add: dropna_def isna_def)
  have ok: "lib_ok demo_lib" by (simp add: lib_ok_def demo_lib_def)
  from email_trims_before_matching[OF ok g l d, of 0] show ?thesis
    by (simp add: engine_eval)
qed

end
